theory Spec2Isabelle
  imports Complex_Main "HOL-Library.Log_Nat"
begin

section \<open>Calendar dates\<close>

text \<open>
  The calculator works on \<^verbatim>\<open>datetime.date\<close> values.  A date is a triple of
  integers; the library only ever constructs triples that name a day of the proleptic
  Gregorian calendar (\<open>valid_date\<close>), and it orders them lexicographically by
  year, month and day.
\<close>

record date =
  year :: int
  month :: int
  day :: int

definition is_leap :: "int \<Rightarrow> bool" where
  "is_leap y = (if y mod 400 = 0 then True else if y mod 100 = 0 then False else y mod 4 = 0)"

definition days_in_month :: "int \<Rightarrow> int \<Rightarrow> int" where
  "days_in_month y m =
     (if m = 2 then (if is_leap y then 29 else 28)
      else if m = 4 \<or> m = 6 \<or> m = 9 \<or> m = 11 then 30
      else 31)"

definition valid_date :: "date \<Rightarrow> bool" where
  "valid_date d \<longleftrightarrow>
     1 \<le> year d \<and> year d \<le> 9999 \<and> 1 \<le> month d \<and> month d \<le> 12 \<and>
     1 \<le> day d \<and> day d \<le> days_in_month (year d) (month d)"

text \<open>\<^verbatim>\<open>a < b\<close> and \<^verbatim>\<open>a <= b\<close> on dates.\<close>

definition date_lt :: "date \<Rightarrow> date \<Rightarrow> bool" where
  "date_lt a b \<longleftrightarrow>
     year a < year b \<or>
     (year a = year b \<and> (month a < month b \<or> (month a = month b \<and> day a < day b)))"

definition date_le :: "date \<Rightarrow> date \<Rightarrow> bool" where
  "date_le a b \<longleftrightarrow>
     year a < year b \<or>
     (year a = year b \<and> (month a < month b \<or> (month a = month b \<and> day a \<le> day b)))"

section \<open>Service and age\<close>

text \<open>
  \<^verbatim>\<open>
  def full_months_between(start: date, end: date) -> int:
      if end < start:
          return 0
      months = (end.year - start.year) * 12 + (end.month - start.month)
      if end.day < start.day:
          months -= 1
      return max(0, months)
  \<close>
\<close>

definition full_months_between :: "date \<Rightarrow> date \<Rightarrow> int" where
  "full_months_between start end =
     (if date_lt end start then 0
      else
        let months = (year end - year start) * 12 + (month end - month start);
            months = (if day end < day start then months - 1 else months)
        in max 0 months)"

text \<open>
  \<^verbatim>\<open>
  def years_and_months_from_total(total_months: int):
      years = total_months // 12
      months = total_months % 12
      return years, months
  \<close>
  Floor division and modulo of Python integers are \<open>div\<close> and \<open>mod\<close> on \<open>int\<close>.
\<close>

definition years_and_months_from_total :: "int \<Rightarrow> int \<times> int" where
  "years_and_months_from_total total_months =
     (let years = total_months div 12;
          months = total_months mod 12
      in (years, months))"

text \<open>
  \<^verbatim>\<open>
  def age_on(dob: date, on_date: date) -> int:
      years = on_date.year - dob.year
      if (on_date.month, on_date.day) < (dob.month, dob.day):
          years -= 1
      return years
  \<close>
  The comparison of the two pairs is lexicographic.
\<close>

definition age_on :: "date \<Rightarrow> date \<Rightarrow> int" where
  "age_on dob on_date =
     (let years = year on_date - year dob
      in if month on_date < month dob \<or> (month on_date = month dob \<and> day on_date < day dob)
         then years - 1 else years)"

section \<open>Entitlement\<close>

text \<open>
  Amounts are Python floats in the source.  Two models follow.  In the first the amounts
  are real numbers and the arithmetic is exact; it carries the statements that name the
  operations the script performs or compare a result with zero, which hold for the floats
  as they stand.  For the redundancy weeks nothing is lost there, since
  \<open>3.0 * yrs + 0.25 * mos\<close> and the bonus are multiples of a quarter far below \<open>2 ^ 53\<close>
  and so are computed exactly by the floats as well.  The second model rounds every
  operation to binary64 and carries the statements that depend on rounding.
\<close>

definition weekly_pay :: "real \<Rightarrow> real" where
  "weekly_pay annual_salary = annual_salary / 52"

text \<open>
  \<^verbatim>\<open>
  def redundancy_weeks_paso_standard(start: date, notice_date: date, dob: date):
      total_months = full_months_between(start, notice_date)
      yrs, mos = years_and_months_from_total(total_months)
      base_weeks = 3.0 * yrs + 0.25 * mos
      a = age_on(dob, notice_date)
      is_45_plus = a >= 45
      weeks = base_weeks + (2.0 if is_45_plus else 0.0)
      if weeks > 0:
          weeks = max(14.0, min(52.0, weeks))
      return weeks, yrs, mos, a, is_45_plus
  \<close>
\<close>

definition redundancy_weeks_paso_standard ::
    "date \<Rightarrow> date \<Rightarrow> date \<Rightarrow> real \<times> int \<times> int \<times> int \<times> bool" where
  "redundancy_weeks_paso_standard start notice_date dob =
     (let total_months = full_months_between start notice_date;
          (yrs, mos) = years_and_months_from_total total_months;
          base_weeks = 3 * real_of_int yrs + 0.25 * real_of_int mos;
          a = age_on dob notice_date;
          is_45_plus = (a \<ge> 45);
          weeks = base_weeks + (if is_45_plus then 2 else 0);
          weeks = (if weeks > 0 then max 14 (min 52 weeks) else weeks)
      in (weeks, yrs, mos, a, is_45_plus))"

section \<open>Tax-free cap\<close>

text \<open>
  \<^verbatim>\<open>
  FY_CAPS = {
      "2025-26": {"base": 13100.0, "service": 6552.0},
      "2024-25": {"base": 12524.0, "service": 6264.0},
      "2023-24": {"base": 11985.0, "service": 5994.0},
  }
  \<close>
  A dictionary of dictionaries; \<^verbatim>\<open>d.get(k, default)\<close> never raises.
\<close>

definition FY_CAPS :: "string \<rightharpoonup> (string \<rightharpoonup> real)" where
  "FY_CAPS =
     [''2025-26'' \<mapsto> [''base'' \<mapsto> 13100, ''service'' \<mapsto> 6552],
      ''2024-25'' \<mapsto> [''base'' \<mapsto> 12524, ''service'' \<mapsto> 6264],
      ''2023-24'' \<mapsto> [''base'' \<mapsto> 11985, ''service'' \<mapsto> 5994]]"

definition dict_get :: "('k \<rightharpoonup> 'v) \<Rightarrow> 'k \<Rightarrow> 'v \<Rightarrow> 'v" where
  "dict_get d k dflt = (case d k of None \<Rightarrow> dflt | Some v \<Rightarrow> v)"

text \<open>
  \<^verbatim>\<open>
  def tax_free_cap(fy, completed_years, base_override, svc_override) -> float:
      base = base_override if base_override is not None else FY_CAPS.get(fy, {}).get("base", 0.0)
      svc = svc_override if svc_override is not None else FY_CAPS.get(fy, {}).get("service", 0.0)
      return float(base + svc * completed_years)
  \<close>
  An \<^verbatim>\<open>Optional[float]\<close> is a \<open>real option\<close>.  The count of completed years is the
  years part of a service duration between two dates, at most 9998, so its conversion to
  a float is exact and is the embedding of the integers into the reals.
\<close>

definition tax_free_cap :: "string \<Rightarrow> int \<Rightarrow> real option \<Rightarrow> real option \<Rightarrow> real" where
  "tax_free_cap fy completed_years base_override svc_override =
     (let base = (case base_override of Some b \<Rightarrow> b
                  | None \<Rightarrow> dict_get (dict_get FY_CAPS fy Map.empty) ''base'' 0);
          svc = (case svc_override of Some s \<Rightarrow> s
                 | None \<Rightarrow> dict_get (dict_get FY_CAPS fy Map.empty) ''service'' 0)
      in base + svc * real_of_int completed_years)"

section \<open>Binary64 arithmetic\<close>

text \<open>
  A Python float is an IEEE 754 binary64 value: a finite number \<open>m * 2 ^ e\<close> with
  \<open>\<bar>m\<bar> < 2 ^ 53\<close> and \<open>e\<close> between \<open>-1074\<close> and \<open>971\<close>, plus or minus
  infinity, or not-a-number.  The two zeros are not told apart: they compare equal, and the
  script never divides by a computed value.

  Every finite value is an integer multiple of \<open>2 ^ -1074\<close>, so a real number is rounded
  in units of \<open>2 ^ -1074\<close>: with an integer part of at most 53 bits it goes to the
  nearest integer, with a longer one to the nearest multiple of the power of two that leaves
  53 bits, and a tie goes to the even neighbour (\<open>rne\<close>, \<open>round_sig\<close>).  A result of
  magnitude \<open>2 ^ 1024\<close> or more overflows to an infinity (\<open>round64\<close>).
\<close>

datatype f64 = Fin real | PInf | NInf | NaN

definition rne :: "real \<Rightarrow> int" where
  "rne x = (let f = \<lfloor>x\<rfloor>; d = x - of_int f
            in if d < 1/2 then f else if 1/2 < d then f + 1 else if even f then f else f + 1)"

definition round_sig :: "real \<Rightarrow> real" where
  "round_sig x = (let k = nat (bitlen \<lfloor>x\<rfloor> - 53) in of_int (rne (x / 2 ^ k)) * 2 ^ k)"

definition f64_scale :: real where
  "f64_scale = 2 ^ 1074"

definition f64_huge :: real where
  "f64_huge = 2 ^ 1024"

definition round64 :: "real \<Rightarrow> f64" where
  "round64 x = (let m = round_sig (\<bar>x\<bar> * f64_scale)
                in if f64_huge * f64_scale \<le> m then (if x < 0 then NInf else PInf)
                   else Fin ((if x < 0 then - m else m) / f64_scale))"

text \<open>
  The operations the script uses.  \<^verbatim>\<open>+\<close>, \<^verbatim>\<open>-\<close> and \<^verbatim>\<open>*\<close> round the
  exact result and never raise on floats: an overflow gives an infinity, and
  \<^verbatim>\<open>inf - inf\<close> and \<^verbatim>\<open>inf * 0.0\<close> give not-a-number.  The only divisions are by
  the constants \<^verbatim>\<open>52.0\<close> and \<^verbatim>\<open>5.0\<close>.  \<^verbatim>\<open>max(a, b)\<close> returns \<^verbatim>\<open>b\<close>
  when \<^verbatim>\<open>b > a\<close> and \<^verbatim>\<open>a\<close> otherwise, and every comparison with not-a-number
  is false.  In \<^verbatim>\<open>svc * completed_years\<close> the integer is converted to the nearest
  float first, which raises \<^verbatim>\<open>OverflowError\<close> when the integer is too large.
\<close>

fun fneg :: "f64 \<Rightarrow> f64" where
  "fneg (Fin x) = Fin (- x)"
| "fneg PInf = NInf"
| "fneg NInf = PInf"
| "fneg NaN = NaN"

fun fadd :: "f64 \<Rightarrow> f64 \<Rightarrow> f64" where
  "fadd (Fin x) (Fin y) = round64 (x + y)"
| "fadd NaN b = NaN"
| "fadd a NaN = NaN"
| "fadd PInf NInf = NaN"
| "fadd NInf PInf = NaN"
| "fadd PInf b = PInf"
| "fadd a PInf = PInf"
| "fadd NInf b = NInf"
| "fadd a NInf = NInf"

definition fsub :: "f64 \<Rightarrow> f64 \<Rightarrow> f64" where
  "fsub a b = fadd a (fneg b)"

fun fmul :: "f64 \<Rightarrow> f64 \<Rightarrow> f64" where
  "fmul (Fin x) (Fin y) = round64 (x * y)"
| "fmul NaN b = NaN"
| "fmul a NaN = NaN"
| "fmul (Fin x) b = (if x = 0 then NaN else if 0 < x then b else fneg b)"
| "fmul a (Fin y) = (if y = 0 then NaN else if 0 < y then a else fneg a)"
| "fmul a b = (if a = b then PInf else NInf)"

fun fdiv_const :: "f64 \<Rightarrow> real \<Rightarrow> f64" where
  "fdiv_const (Fin x) c = round64 (x / c)"
| "fdiv_const a c = a"

fun fgt :: "f64 \<Rightarrow> f64 \<Rightarrow> bool" where
  "fgt (Fin x) (Fin y) = (y < x)"
| "fgt NaN b = False"
| "fgt a NaN = False"
| "fgt PInf b = (b \<noteq> PInf)"
| "fgt a NInf = (a \<noteq> NInf)"
| "fgt a b = False"

definition py_max :: "f64 \<Rightarrow> f64 \<Rightarrow> f64" where
  "py_max a b = (if fgt b a then b else a)"

datatype py_error = OverflowError

definition float_of_int :: "int \<Rightarrow> py_error + f64" where
  "float_of_int n = (case round64 (of_int n) of Fin v \<Rightarrow> Inr (Fin v) | _ \<Rightarrow> Inl OverflowError)"

text \<open>
  \<^verbatim>\<open>tax_free_cap\<close> again, with floats.  The literals of \<^verbatim>\<open>FY_CAPS\<close> and the
  default \<^verbatim>\<open>0.0\<close> are the floats nearest to the numbers written.
\<close>

definition tax_free_cap_f64 ::
    "string \<Rightarrow> int \<Rightarrow> f64 option \<Rightarrow> f64 option \<Rightarrow> py_error + f64" where
  "tax_free_cap_f64 fy completed_years base_override svc_override =
     (let base = (case base_override of Some b \<Rightarrow> b
                  | None \<Rightarrow> round64 (dict_get (dict_get FY_CAPS fy Map.empty) ''base'' 0));
          svc = (case svc_override of Some s \<Rightarrow> s
                 | None \<Rightarrow> round64 (dict_get (dict_get FY_CAPS fy Map.empty) ''service'' 0))
      in case float_of_int completed_years of
           Inl e \<Rightarrow> Inl e
         | Inr years \<Rightarrow> Inr (fadd base (fmul svc years)))"

text \<open>
  Two predicates for the proofs: a value that is not negative (a non-negative number,
  plus infinity or not-a-number), and a finite float \<open>v\<close> that is not negative.
\<close>

definition not_neg :: "f64 \<Rightarrow> bool" where
  "not_neg a \<longleftrightarrow> a = PInf \<or> a = NaN \<or> (\<exists>v. a = Fin v \<and> 0 \<le> v)"

definition fin_nn :: "f64 \<Rightarrow> real \<Rightarrow> bool" where
  "fin_nn a v \<longleftrightarrow> a = Fin v \<and> 0 \<le> v \<and> round64 v = Fin v"

section \<open>The calculation\<close>

text \<open>
  The values read from the sidebar, one field per widget (lines 292 to 367 of the
  script), and the \<^verbatim>\<open>Results\<close> dataclass the script fills.
\<close>

record inputs =
  annual_salary :: real
  dob :: date
  start_date :: date
  notice_date :: date
  notice_weeks :: real
  notice_paid_in_lieu :: bool
  al_days :: real
  lsl_weeks :: real
  include_al_loading :: bool
  al_loading_pct :: real
  fy :: string
  cap_base :: real
  cap_service :: real
  under_pres :: bool
  etp_tax_u :: real
  etp_tax_o :: real
  leave_withholding :: real

record results =
  weekly :: real
  day_rate :: real
  service_years :: int
  service_months :: int
  age :: int
  is_45_plus :: bool
  redundancy_weeks :: real
  redundancy_gross :: real
  notice_gross :: real
  al_gross :: real
  lsl_gross :: real
  al_loading_gross :: real
  leave_gross :: real
  etp_gross :: real
  cap :: real
  etp_taxable :: real
  etp_tax :: real
  leave_tax :: real
  notice_tax :: real
  total_gross :: real
  total_tax :: real
  total_net :: real

text \<open>
  The compute section of the script (lines 372 to 426), statement by statement; local
  names carry a prime where they would hide a field of \<open>results\<close>.
  \<^verbatim>\<open>
  w = weekly_pay(annual_salary)
  day_rate = w / 5.0
  red_weeks, svc_years, svc_months, age, is_45_plus =
      redundancy_weeks_paso_standard(start_date, notice_date, dob)
  redundancy_gross = red_weeks * w
  notice_gross = notice_weeks * w
  al_gross = al_days * day_rate
  lsl_gross = lsl_weeks * w
  al_loading_gross = (al_loading_pct * al_gross) if include_al_loading else 0.0
  leave_gross = al_gross + lsl_gross + al_loading_gross
  etp_gross = redundancy_gross + (notice_gross if notice_paid_in_lieu else 0.0)
  cap = tax_free_cap(fy, svc_years, cap_base, cap_service)
  etp_taxable = max(0.0, etp_gross - cap)
  etp_rate = etp_tax_u if under_pres else etp_tax_o
  etp_tax = etp_taxable * etp_rate
  leave_tax = leave_gross * leave_withholding
  notice_tax = 0.0
  if not notice_paid_in_lieu:
      notice_tax = notice_gross * leave_withholding
  total_gross = redundancy_gross + notice_gross + leave_gross
  total_tax = etp_tax + leave_tax + notice_tax
  total_net = total_gross - total_tax
  \<close>
\<close>

definition compute :: "inputs \<Rightarrow> results" where
  "compute i =
     (let w = weekly_pay (annual_salary i);
          day_rate' = w / 5;
          (red_weeks, svc_years, svc_months, age', is_45_plus') =
             redundancy_weeks_paso_standard (start_date i) (notice_date i) (dob i);
          redundancy_gross' = red_weeks * w;
          notice_gross' = notice_weeks i * w;
          al_gross' = al_days i * day_rate';
          lsl_gross' = lsl_weeks i * w;
          al_loading_gross' = (if include_al_loading i then al_loading_pct i * al_gross' else 0);
          leave_gross' = al_gross' + lsl_gross' + al_loading_gross';
          etp_gross' = redundancy_gross' + (if notice_paid_in_lieu i then notice_gross' else 0);
          cap' = tax_free_cap (fy i) svc_years (Some (cap_base i)) (Some (cap_service i));
          etp_taxable' = max 0 (etp_gross' - cap');
          etp_rate = (if under_pres i then etp_tax_u i else etp_tax_o i);
          etp_tax' = etp_taxable' * etp_rate;
          leave_tax' = leave_gross' * leave_withholding i;
          notice_tax' = (if \<not> notice_paid_in_lieu i then notice_gross' * leave_withholding i else 0);
          total_gross' = redundancy_gross' + notice_gross' + leave_gross';
          total_tax' = etp_tax' + leave_tax' + notice_tax';
          total_net' = total_gross' - total_tax'
      in \<lparr> weekly = w, day_rate = day_rate', service_years = svc_years,
           service_months = svc_months, age = age', is_45_plus = is_45_plus',
           redundancy_weeks = red_weeks, redundancy_gross = redundancy_gross',
           notice_gross = notice_gross', al_gross = al_gross', lsl_gross = lsl_gross',
           al_loading_gross = al_loading_gross', leave_gross = leave_gross',
           etp_gross = etp_gross', cap = cap', etp_taxable = etp_taxable',
           etp_tax = etp_tax', leave_tax = leave_tax', notice_tax = notice_tax',
           total_gross = total_gross', total_tax = total_tax', total_net = total_net' \<rparr>)"

text \<open>
  The compute section once more, every operation rounded.  Each widget hands over the float
  nearest to the number entered.  The redundancy weeks are a multiple of a quarter between 0
  and 52 that the floats compute without rounding, so they are taken from
  \<open>redundancy_weeks_paso_standard\<close>.  The conversion of the completed years inside
  \<^verbatim>\<open>tax_free_cap\<close> is the one statement that can raise.
\<close>

record amounts_f64 =
  redundancy_gross_f64 :: f64
  notice_gross_f64 :: f64
  leave_gross_f64 :: f64
  etp_gross_f64 :: f64
  cap_f64 :: f64
  etp_taxable_f64 :: f64
  etp_tax_f64 :: f64
  leave_tax_f64 :: f64
  notice_tax_f64 :: f64
  total_gross_f64 :: f64
  total_tax_f64 :: f64
  total_net_f64 :: f64

definition compute_f64 :: "inputs \<Rightarrow> py_error + amounts_f64" where
  "compute_f64 i =
     (let w = fdiv_const (round64 (annual_salary i)) 52;
          day_rate' = fdiv_const w 5;
          (red_weeks, svc_years, svc_months, age', is_45_plus') =
             redundancy_weeks_paso_standard (start_date i) (notice_date i) (dob i);
          redundancy_gross' = fmul (Fin red_weeks) w;
          notice_gross' = fmul (round64 (notice_weeks i)) w;
          al_gross' = fmul (round64 (al_days i)) day_rate';
          lsl_gross' = fmul (round64 (lsl_weeks i)) w;
          al_loading_gross' =
            (if include_al_loading i then fmul (round64 (al_loading_pct i)) al_gross' else Fin 0);
          leave_gross' = fadd (fadd al_gross' lsl_gross') al_loading_gross';
          etp_gross' = fadd redundancy_gross' (if notice_paid_in_lieu i then notice_gross' else Fin 0)
      in case tax_free_cap_f64 (fy i) svc_years
                (Some (round64 (cap_base i))) (Some (round64 (cap_service i))) of
           Inl e \<Rightarrow> Inl e
         | Inr cap' \<Rightarrow>
            (let etp_taxable' = py_max (Fin 0) (fsub etp_gross' cap');
                 etp_rate = (if under_pres i then round64 (etp_tax_u i) else round64 (etp_tax_o i));
                 etp_tax' = fmul etp_taxable' etp_rate;
                 leave_tax' = fmul leave_gross' (round64 (leave_withholding i));
                 notice_tax' = (if \<not> notice_paid_in_lieu i
                                then fmul notice_gross' (round64 (leave_withholding i)) else Fin 0);
                 total_gross' = fadd (fadd redundancy_gross' notice_gross') leave_gross';
                 total_tax' = fadd (fadd etp_tax' leave_tax') notice_tax';
                 total_net' = fsub total_gross' total_tax'
             in Inr \<lparr> redundancy_gross_f64 = redundancy_gross', notice_gross_f64 = notice_gross',
                      leave_gross_f64 = leave_gross', etp_gross_f64 = etp_gross', cap_f64 = cap',
                      etp_taxable_f64 = etp_taxable', etp_tax_f64 = etp_tax',
                      leave_tax_f64 = leave_tax', notice_tax_f64 = notice_tax',
                      total_gross_f64 = total_gross', total_tax_f64 = total_tax',
                      total_net_f64 = total_net' \<rparr>))"

text \<open>
  The values the sidebar widgets start with (their \<^verbatim>\<open>value=\<close> arguments and the
  \<^verbatim>\<open>DEFAULTS\<close> table).  The default notice date is one year after the day the script
  runs, so it is a parameter here.  The first key of \<^verbatim>\<open>FY_CAPS\<close> is preselected and
  fills the two cap fields.
\<close>

definition default_inputs :: "date \<Rightarrow> inputs" where
  "default_inputs notice =
     \<lparr> annual_salary = 158000,
       dob = \<lparr>year = 1992, month = 8, day = 12\<rparr>,
       start_date = \<lparr>year = 2021, month = 10, day = 11\<rparr>,
       notice_date = notice,
       notice_weeks = 8,
       notice_paid_in_lieu = True,
       al_days = 5,
       lsl_weeks = 4,
       include_al_loading = False,
       al_loading_pct = 0.175,
       fy = ''2025-26'',
       cap_base = 13100,
       cap_service = 6552,
       under_pres = True,
       etp_tax_u = 0.32,
       etp_tax_o = 0.17,
       leave_withholding = 0.32 \<rparr>"


section \<open>Completed months\<close>

lemma full_months_between_nonneg: "0 \<le> full_months_between s e"
  by (simp add: full_months_between_def Let_def)

lemma valid_date_month: "valid_date d \<Longrightarrow> 1 \<le> month d \<and> month d \<le> 12"
  by (simp add: valid_date_def)

text \<open>
  Claim C6.  When the end date is before the start date the count is 0.  Otherwise it is
  the calendar-month difference \<open>(end.year - start.year) * 12 + (end.month - start.month)\<close>,
  less one when the end day of month is before the start day of month, and never below 0.
\<close>

theorem full_months_between_spec:
  "(date_lt e s \<longrightarrow> full_months_between s e = 0) \<and>
   (\<not> date_lt e s \<longrightarrow>
      full_months_between s e =
        max 0 ((year e - year s) * 12 + (month e - month s) - (if day e < day s then 1 else 0))) \<and>
   0 \<le> full_months_between s e"
  by (simp add: full_months_between_def Let_def)

theorem full_months_between_spec_witness:
  "(date_lt \<lparr>year = 2020, month = 3, day = 14\<rparr> \<lparr>year = 2020, month = 3, day = 15\<rparr> \<and>
    full_months_between \<lparr>year = 2020, month = 3, day = 15\<rparr> \<lparr>year = 2020, month = 3, day = 14\<rparr> = 0) \<and>
   (\<not> date_lt \<lparr>year = 2029, month = 10, day = 10\<rparr> \<lparr>year = 2021, month = 10, day = 11\<rparr> \<and>
    full_months_between \<lparr>year = 2021, month = 10, day = 11\<rparr> \<lparr>year = 2029, month = 10, day = 10\<rparr> = 95)"
  using full_months_between_spec
          [of "\<lparr>year = 2020, month = 3, day = 14\<rparr>" "\<lparr>year = 2020, month = 3, day = 15\<rparr>"]
        full_months_between_spec
          [of "\<lparr>year = 2029, month = 10, day = 10\<rparr>" "\<lparr>year = 2021, month = 10, day = 11\<rparr>"]
  by (simp add: date_lt_def)

text \<open>
  Claim C8.  For a fixed start date the count of completed months does not decrease when
  the end date advances: \<open>e1 \<le> e2\<close> gives
  \<open>full_months_between start e1 \<le> full_months_between start e2\<close>.  The dates are values
  of \<^verbatim>\<open>datetime.date\<close>, so their months lie between 1 and 12.
\<close>

theorem full_months_between_mono:
  assumes s: "valid_date s" and e1: "valid_date e1" and e2: "valid_date e2"
    and le: "date_le e1 e2"
  shows "full_months_between s e1 \<le> full_months_between s e2"
proof (cases "date_lt e1 s")
  case True
  then have "full_months_between s e1 = 0"
    by (simp add: full_months_between_def)
  then show ?thesis
    by (simp add: full_months_between_nonneg)
next
  case False
  from le False have ge: "\<not> date_lt e2 s"
    unfolding date_le_def date_lt_def by auto
  note m1 = valid_date_month [OF e1] and m2 = valid_date_month [OF e2]
  let ?f = "\<lambda>e. (year e - year s) * 12 + (month e - month s) - (if day e < day s then 1 else 0)"
  have "?f e1 \<le> ?f e2"
  proof (cases "year e1 = year e2 \<and> month e1 = month e2")
    case True
    with le have "day e1 \<le> day e2"
      unfolding date_le_def by auto
    with True show ?thesis by auto
  next
    case False
    with le have "year e1 * 12 + month e1 + 1 \<le> year e2 * 12 + month e2"
      using m1 m2 unfolding date_le_def by auto
    then show ?thesis by auto
  qed
  then have "max 0 (?f e1) \<le> max 0 (?f e2)"
    by simp
  moreover from False have "full_months_between s e1 = max 0 (?f e1)"
    by (simp add: full_months_between_def Let_def)
  moreover from ge have "full_months_between s e2 = max 0 (?f e2)"
    by (simp add: full_months_between_def Let_def)
  ultimately show ?thesis
    by (simp only:)
qed

theorem full_months_between_mono_witness:
  "valid_date \<lparr>year = 2021, month = 10, day = 11\<rparr> \<and>
   valid_date \<lparr>year = 2029, month = 10, day = 10\<rparr> \<and>
   valid_date \<lparr>year = 2029, month = 10, day = 11\<rparr> \<and>
   date_le \<lparr>year = 2029, month = 10, day = 10\<rparr> \<lparr>year = 2029, month = 10, day = 11\<rparr> \<and>
   full_months_between \<lparr>year = 2021, month = 10, day = 11\<rparr> \<lparr>year = 2029, month = 10, day = 10\<rparr>
     \<le> full_months_between \<lparr>year = 2021, month = 10, day = 11\<rparr> \<lparr>year = 2029, month = 10, day = 11\<rparr>"
proof -
  have v1: "valid_date \<lparr>year = 2021, month = 10, day = 11\<rparr>"
    and v2: "valid_date \<lparr>year = 2029, month = 10, day = 10\<rparr>"
    and v3: "valid_date \<lparr>year = 2029, month = 10, day = 11\<rparr>"
    by (simp_all add: valid_date_def days_in_month_def)
  have le: "date_le \<lparr>year = 2029, month = 10, day = 10\<rparr> \<lparr>year = 2029, month = 10, day = 11\<rparr>"
    by (simp add: date_le_def)
  from full_months_between_mono [OF v1 v2 v3 le] v1 v2 v3 le show ?thesis
    by blast
qed

section \<open>Redundancy weeks\<close>

lemma rw_weeks:
  "fst (redundancy_weeks_paso_standard s n d) =
     (let raw = 3 * real_of_int (full_months_between s n div 12)
                + 0.25 * real_of_int (full_months_between s n mod 12)
                + (if 45 \<le> age_on d n then 2 else 0)
      in if 0 < raw then max 14 (min 52 raw) else raw)"
  by (simp add: redundancy_weeks_paso_standard_def years_and_months_from_total_def Let_def)

lemma rw_rest:
  "snd (redundancy_weeks_paso_standard s n d) =
     (full_months_between s n div 12, full_months_between s n mod 12, age_on d n, 45 \<le> age_on d n)"
  by (simp add: redundancy_weeks_paso_standard_def years_and_months_from_total_def Let_def)

lemma raw_nonneg:
  "0 \<le> 3 * real_of_int (full_months_between s n div 12)
                + 0.25 * real_of_int (full_months_between s n mod 12)
                + (if 45 \<le> age_on d n then 2 else 0)"
proof -
  have "0 \<le> full_months_between s n div 12" using full_months_between_nonneg[of s n] by simp
  moreover have "0 \<le> full_months_between s n mod 12" by simp
  ultimately show ?thesis by simp
qed



text \<open>
  Claim C1.  With \<open>Y\<close> the completed years and \<open>M\<close> the remainder months of service
  between the start date and the notice date, the raw value is \<open>3 * Y + 0.25 * M\<close> plus
  2 exactly when the age on the notice date is at least 45.  A strictly positive raw value
  is clamped into the band from 14 to 52; a raw value of 0 is returned as 0.  Hence a
  positive result always lies between 14 and 52.
\<close>

theorem redundancy_weeks_formula:
  "let total = full_months_between start notice;
       Y = total div 12;
       M = total mod 12;
       a = age_on birth notice;
       raw = 3 * real_of_int Y + 0.25 * real_of_int M + (if 45 \<le> a then 2 else 0);
       weeks = fst (redundancy_weeks_paso_standard start notice birth)
   in redundancy_weeks_paso_standard start notice birth = (weeks, Y, M, a, 45 \<le> a) \<and>
      0 \<le> raw \<and>
      (0 < raw \<longrightarrow> weeks = max 14 (min 52 raw)) \<and>
      (raw = 0 \<longrightarrow> weeks = 0) \<and>
      (0 < weeks \<longrightarrow> 14 \<le> weeks \<and> weeks \<le> 52)"
proof -
  define raw where "raw = 3 * real_of_int (full_months_between start notice div 12)
                + 0.25 * real_of_int (full_months_between start notice mod 12)
                + (if 45 \<le> age_on birth notice then 2 else 0)"
  define weeks where "weeks = fst (redundancy_weeks_paso_standard start notice birth)"
  have w: "weeks = (if 0 < raw then max 14 (min 52 raw) else raw)"
    unfolding weeks_def raw_def rw_weeks Let_def ..
  have r: "0 \<le> raw"
    unfolding raw_def by (rule raw_nonneg)
  have t: "redundancy_weeks_paso_standard start notice birth =
        (weeks, full_months_between start notice div 12, full_months_between start notice mod 12,
         age_on birth notice, 45 \<le> age_on birth notice)"
    unfolding weeks_def rw_rest [symmetric] by simp
  have b: "0 < weeks \<longrightarrow> 14 \<le> weeks \<and> weeks \<le> 52"
    unfolding w by (simp add: max_def min_def)
  have z: "raw = 0 \<longrightarrow> weeks = 0"
    unfolding w by simp
  have c: "0 < raw \<longrightarrow> weeks = max 14 (min 52 raw)"
    unfolding w by simp
  from t r c z b show ?thesis
    unfolding Let_def raw_def [symmetric] weeks_def [symmetric] by blast
qed

theorem redundancy_weeks_formula_witness:
  "fst (redundancy_weeks_paso_standard \<lparr>year = 2015, month = 1, day = 1\<rparr>
          \<lparr>year = 2024, month = 1, day = 1\<rparr> \<lparr>year = 1994, month = 1, day = 1\<rparr>) = 27 \<and>
   fst (redundancy_weeks_paso_standard \<lparr>year = 2024, month = 1, day = 1\<rparr>
          \<lparr>year = 2024, month = 1, day = 1\<rparr> \<lparr>year = 1994, month = 1, day = 1\<rparr>) = 0"
  using redundancy_weeks_formula [of "\<lparr>year = 2015, month = 1, day = 1\<rparr>"
          "\<lparr>year = 2024, month = 1, day = 1\<rparr>" "\<lparr>year = 1994, month = 1, day = 1\<rparr>"]
        redundancy_weeks_formula [of "\<lparr>year = 2024, month = 1, day = 1\<rparr>"
          "\<lparr>year = 2024, month = 1, day = 1\<rparr>" "\<lparr>year = 1994, month = 1, day = 1\<rparr>"]
  by (simp add: Let_def full_months_between_def date_lt_def age_on_def)

subsection \<open>Zero service\<close>

lemma full_months_between_same: "full_months_between d d = 0"
  by (simp add: full_months_between_def date_lt_def Let_def)

text \<open>
  Claim C2 says that with the start date equal to the notice date the result is 0 whatever
  the date of birth.  The bonus for age 45 is added before the test \<^verbatim>\<open>weeks > 0\<close>, so
  an employee aged 50 with no completed month has a raw value of 2, which the floor raises
  to 14.
\<close>

theorem zero_service_weeks_counterexample:
  "full_months_between \<lparr>year = 2020, month = 1, day = 1\<rparr> \<lparr>year = 2020, month = 1, day = 1\<rparr> = 0 \<and>
   fst (redundancy_weeks_paso_standard \<lparr>year = 2020, month = 1, day = 1\<rparr>
          \<lparr>year = 2020, month = 1, day = 1\<rparr> \<lparr>year = 1970, month = 1, day = 1\<rparr>) \<noteq> 0"
  by (simp add: rw_weeks full_months_between_same age_on_def Let_def)

text \<open>
  Claim C2 as amended.  With the start date equal to the notice date the completed months
  are 0; the redundancy weeks are exactly 0 when the age on the notice date is below 45,
  and 14 when it is at least 45.
\<close>

theorem zero_service_weeks:
  "full_months_between d d = 0 \<and>
   (age_on birth d < 45 \<longrightarrow> fst (redundancy_weeks_paso_standard d d birth) = 0) \<and>
   (45 \<le> age_on birth d \<longrightarrow> fst (redundancy_weeks_paso_standard d d birth) = 14)"
  by (simp add: rw_weeks full_months_between_same Let_def)

theorem zero_service_weeks_witness:
  "age_on \<lparr>year = 1994, month = 1, day = 1\<rparr> \<lparr>year = 2024, month = 1, day = 1\<rparr> < 45 \<and>
   fst (redundancy_weeks_paso_standard \<lparr>year = 2024, month = 1, day = 1\<rparr>
          \<lparr>year = 2024, month = 1, day = 1\<rparr> \<lparr>year = 1994, month = 1, day = 1\<rparr>) = 0 \<and>
   45 \<le> age_on \<lparr>year = 1970, month = 1, day = 1\<rparr> \<lparr>year = 2020, month = 1, day = 1\<rparr> \<and>
   fst (redundancy_weeks_paso_standard \<lparr>year = 2020, month = 1, day = 1\<rparr>
          \<lparr>year = 2020, month = 1, day = 1\<rparr> \<lparr>year = 1970, month = 1, day = 1\<rparr>) = 14"
  using zero_service_weeks [of "\<lparr>year = 2024, month = 1, day = 1\<rparr>" "\<lparr>year = 1994, month = 1, day = 1\<rparr>"]
        zero_service_weeks [of "\<lparr>year = 2020, month = 1, day = 1\<rparr>" "\<lparr>year = 1970, month = 1, day = 1\<rparr>"]
  by (simp add: age_on_def)

section \<open>The fields of the result\<close>

lemma compute_redundancy_gross:
  "redundancy_gross (compute i) =
     fst (redundancy_weeks_paso_standard (start_date i) (notice_date i) (dob i)) * (annual_salary i / 52)"
  by (simp add: compute_def Let_def weekly_pay_def case_prod_beta)
lemma compute_notice_gross: "notice_gross (compute i) = notice_weeks i * (annual_salary i / 52)"
  by (simp add: compute_def Let_def weekly_pay_def case_prod_beta)
lemma compute_leave_gross: "leave_gross (compute i) =
   al_days i * (annual_salary i / 52 / 5) + lsl_weeks i * (annual_salary i / 52)
   + (if include_al_loading i then al_loading_pct i * (al_days i * (annual_salary i / 52 / 5)) else 0)"
  by (simp add: compute_def Let_def weekly_pay_def case_prod_beta)
lemma compute_etp_gross: "etp_gross (compute i) =
   redundancy_gross (compute i) + (if notice_paid_in_lieu i then notice_gross (compute i) else 0)"
  by (simp add: compute_def Let_def weekly_pay_def case_prod_beta)
lemma compute_service_years: "service_years (compute i) =
   full_months_between (start_date i) (notice_date i) div 12"
  by (simp add: compute_def Let_def case_prod_beta rw_rest)
lemma compute_cap: "cap (compute i) =
   tax_free_cap (fy i) (service_years (compute i)) (Some (cap_base i)) (Some (cap_service i))"
  by (simp add: compute_def Let_def case_prod_beta)
lemma compute_etp_taxable: "etp_taxable (compute i) = max 0 (etp_gross (compute i) - cap (compute i))"
  by (simp add: compute_def Let_def case_prod_beta)
lemma compute_etp_tax: "etp_tax (compute i) =
   etp_taxable (compute i) * (if under_pres i then etp_tax_u i else etp_tax_o i)"
  by (simp add: compute_def Let_def case_prod_beta)
lemma compute_leave_tax: "leave_tax (compute i) = leave_gross (compute i) * leave_withholding i"
  by (simp add: compute_def Let_def case_prod_beta)
lemma compute_notice_tax: "notice_tax (compute i) =
   (if \<not> notice_paid_in_lieu i then notice_gross (compute i) * leave_withholding i else 0)"
  by (simp add: compute_def Let_def case_prod_beta)
lemma compute_total_gross: "total_gross (compute i) =
   redundancy_gross (compute i) + notice_gross (compute i) + leave_gross (compute i)"
  by (simp add: compute_def Let_def case_prod_beta)
lemma compute_total_tax: "total_tax (compute i) =
   etp_tax (compute i) + leave_tax (compute i) + notice_tax (compute i)"
  by (simp add: compute_def Let_def case_prod_beta)
lemma compute_total_net: "total_net (compute i) = total_gross (compute i) - total_tax (compute i)"
  by (simp add: compute_def Let_def case_prod_beta)

text \<open>The weeks and the service of the default inputs with notice on 11 October 2029.\<close>

lemma default_service:
  "full_months_between \<lparr>year = 2021, month = 10, day = 11\<rparr> \<lparr>year = 2029, month = 10, day = 11\<rparr> = 96"
  by (simp add: full_months_between_def date_lt_def)

lemma default_weeks:
  "fst (redundancy_weeks_paso_standard \<lparr>year = 2021, month = 10, day = 11\<rparr>
          \<lparr>year = 2029, month = 10, day = 11\<rparr> \<lparr>year = 1992, month = 8, day = 12\<rparr>) = 24"
  by (simp add: rw_weeks default_service age_on_def)

lemmas default_simps =
  default_inputs_def compute_redundancy_gross compute_notice_gross compute_leave_gross
  compute_etp_gross compute_service_years compute_cap compute_etp_taxable compute_etp_tax
  compute_leave_tax compute_notice_tax compute_total_gross compute_total_tax compute_total_net
  default_service default_weeks tax_free_cap_def

section \<open>Tax estimate\<close>

text \<open>
  Claim C3.  The taxable part of the termination payment is
  \<open>max 0 (etp_gross - cap)\<close>.  Whenever the pool does not exceed the cap, the taxable
  part is 0 and so is the tax on it, for every rate and either setting of the
  preservation-age switch.
\<close>

theorem etp_taxable_floor:
  "etp_taxable (compute i) = max 0 (etp_gross (compute i) - cap (compute i)) \<and>
   (etp_gross (compute i) \<le> cap (compute i) \<longrightarrow>
      etp_taxable (compute i) = 0 \<and> etp_tax (compute i) = 0)"
  by (simp add: compute_etp_taxable compute_etp_tax)

theorem etp_taxable_floor_witness:
  "etp_gross (compute ((default_inputs \<lparr>year = 2029, month = 10, day = 11\<rparr>)\<lparr>annual_salary := 52000\<rparr>))
     \<le> cap (compute ((default_inputs \<lparr>year = 2029, month = 10, day = 11\<rparr>)\<lparr>annual_salary := 52000\<rparr>)) \<and>
   etp_taxable (compute ((default_inputs \<lparr>year = 2029, month = 10, day = 11\<rparr>)\<lparr>annual_salary := 52000\<rparr>)) = 0 \<and>
   etp_tax (compute ((default_inputs \<lparr>year = 2029, month = 10, day = 11\<rparr>)\<lparr>annual_salary := 52000\<rparr>)) = 0"
proof -
  let ?i = "(default_inputs \<lparr>year = 2029, month = 10, day = 11\<rparr>)\<lparr>annual_salary := 52000\<rparr>"
  have le: "etp_gross (compute ?i) \<le> cap (compute ?i)"
    by (simp add: default_simps)
  with etp_taxable_floor [of ?i] show ?thesis
    by blast
qed



section \<open>Signs of the amounts\<close>




section \<open>Totals\<close>



section \<open>A fiscal year outside the table\<close>

text \<open>
  Claim C9.  For a fiscal-year label that is not a key of \<open>FY_CAPS\<close> and with neither
  override given, both lookups fall back to their defaults and the cap is 0 for every
  count of completed years; no lookup can fail.  With a cap of 0 nothing is taken off
  the pool before tax: the taxable part \<open>max 0 (g - cap)\<close> of a pool \<open>g\<close> is
  \<open>max 0 g\<close>.
\<close>

theorem tax_free_cap_unknown_key:
  assumes "f \<notin> dom FY_CAPS"
  shows "tax_free_cap f Y None None = 0 \<and>
         max 0 (g - tax_free_cap f Y None None) = max 0 g"
  using assms by (simp add: tax_free_cap_def dict_get_def dom_def)

theorem tax_free_cap_unknown_key_witness:
  "''2022-23'' \<notin> dom FY_CAPS \<and> tax_free_cap ''2022-23'' 7 None None = 0"
proof -
  have k: "''2022-23'' \<notin> dom FY_CAPS"
    by (simp add: FY_CAPS_def)
  with tax_free_cap_unknown_key [OF k, of 7 0] show ?thesis
    by blast
qed

section \<open>Rounding to binary64\<close>

subsection \<open>Rounding to an integer, ties to even\<close>

lemma rne_of_int: "rne (of_int n) = n"
  by (simp add: rne_def)

lemma rne_bounds: "\<lfloor>x\<rfloor> \<le> rne x \<and> rne x \<le> \<lfloor>x\<rfloor> + 1"
  by (simp add: rne_def Let_def)

lemma rne_mono:
  assumes "x \<le> y"
  shows "rne x \<le> rne y"
proof (cases "\<lfloor>x\<rfloor> = \<lfloor>y\<rfloor>")
  case True
  with assms have "x - of_int \<lfloor>x\<rfloor> \<le> y - of_int \<lfloor>y\<rfloor>"
    by simp
  with True show ?thesis
    by (auto simp: rne_def Let_def)
next
  case False
  with assms have "\<lfloor>x\<rfloor> + 1 \<le> \<lfloor>y\<rfloor>"
    using floor_mono [of x y] by linarith
  with rne_bounds [of x] rne_bounds [of y] show ?thesis
    by linarith
qed

lemma rne_nonneg: "0 \<le> x \<Longrightarrow> 0 \<le> rne x"
  using rne_mono [of 0 x] rne_of_int [of 0] by simp

text \<open>The bit length of the integer part bounds a non-negative real.\<close>

lemma bitlen_floor_upper:
  fixes x :: real
  assumes "0 \<le> x"
  shows "x < 2 ^ nat (bitlen \<lfloor>x\<rfloor>)"
proof (cases "0 < \<lfloor>x\<rfloor>")
  case True
  then have "\<lfloor>x\<rfloor> < 2 ^ nat (bitlen \<lfloor>x\<rfloor>)"
    using bitlen_bounds by blast
  then have "\<lfloor>x\<rfloor> + 1 \<le> 2 ^ nat (bitlen \<lfloor>x\<rfloor>)"
    by simp
  then have "real_of_int (\<lfloor>x\<rfloor> + 1) \<le> real_of_int (2 ^ nat (bitlen \<lfloor>x\<rfloor>))"
    by (rule of_int_le_iff [THEN iffD2])
  then have b: "real_of_int \<lfloor>x\<rfloor> + 1 \<le> 2 ^ nat (bitlen \<lfloor>x\<rfloor>)"
    by simp
  have "x < real_of_int \<lfloor>x\<rfloor> + 1"
    by linarith
  with b show ?thesis
    by linarith
next
  case False
  with assms have z: "\<lfloor>x\<rfloor> = 0"
    by (simp add: order_antisym)
  then have "x < 1"
    by (simp add: floor_eq_iff)
  moreover from z have "bitlen \<lfloor>x\<rfloor> = 0"
    by simp
  ultimately show ?thesis
    by simp
qed



subsection \<open>Rounding to 53 significant bits\<close>

lemma floor_int_pow2: "\<lfloor>real_of_int m * 2 ^ k\<rfloor> = m * 2 ^ k"
proof -
  have "real_of_int m * 2 ^ k = real_of_int (m * 2 ^ k)"
    by simp
  then show ?thesis
    by (simp only: floor_of_int)
qed

lemma bitlen_2_53: "bitlen (2 ^ 53) = 54"
proof -
  have "bitlen (1 * 2 ^ 53) = bitlen 1 + int 53"
    by (rule bitlen_pow2) simp
  moreover have "bitlen 1 = 1"
    by (simp add: bitlen_alt_def)
  ultimately show ?thesis
    by simp
qed

lemma round_sig_zero: "round_sig 0 = 0"
  by (simp add: round_sig_def rne_def)

lemma round_sig_exact:
  assumes m0: "0 \<le> m" and m1: "m \<le> 2 ^ 53"
  shows "round_sig (of_int m * 2 ^ k) = of_int m * 2 ^ k"
proof (cases "m = 0")
  case True
  then show ?thesis
    by (simp add: round_sig_zero)
next
  case False
  with m0 have pos: "0 < m"
    by simp
  have bl: "bitlen \<lfloor>real_of_int m * 2 ^ k\<rfloor> = bitlen m + int k"
    unfolding floor_int_pow2 using pos by (rule bitlen_pow2)
  define k' where "k' = nat (bitlen m + int k - 53)"
  have rs: "round_sig (of_int m * 2 ^ k) = of_int (rne (of_int m * 2 ^ k / 2 ^ k')) * 2 ^ k'"
    by (simp add: round_sig_def bl k'_def Let_def)
  show ?thesis
  proof (cases "m = 2 ^ 53")
    case True
    then have "bitlen m = 54"
      by (simp only: bitlen_2_53)
    then have k': "k' = Suc k"
      by (simp add: k'_def)
    have "real_of_int m * 2 ^ k / 2 ^ k' = real_of_int (2 ^ 52)"
      by (simp add: k' True)
    then have r: "rne (real_of_int m * 2 ^ k / 2 ^ k') = 2 ^ 52"
      by (simp only: rne_of_int)
    have "round_sig (of_int m * 2 ^ k) = real_of_int (2 ^ 52) * 2 ^ k'"
      unfolding rs r ..
    also have "\<dots> = real_of_int m * 2 ^ k"
      by (simp add: k' True)
    finally show ?thesis .
  next
    case False
    with m1 have "m < 2 ^ 53"
      by simp
    then have "bitlen m \<le> 53"
      using bitlen_le_iff_power [of m 53] by simp
    then have le: "k' \<le> k"
      by (simp add: k'_def)
    then have "(2::real) ^ k = 2 ^ (k - k') * 2 ^ k'"
      by (simp add: power_add [symmetric])
    then have d: "real_of_int m * 2 ^ k / 2 ^ k' = real_of_int (m * 2 ^ (k - k'))"
      by simp
    have "rne (real_of_int m * 2 ^ k / 2 ^ k') = m * 2 ^ (k - k')"
      unfolding d by (rule rne_of_int)
    then have "round_sig (of_int m * 2 ^ k) = real_of_int m * (2 ^ (k - k') * 2 ^ k')"
      by (simp add: rs)
    also have "\<dots> = real_of_int m * 2 ^ k"
      using le by (simp add: power_add [symmetric])
    finally show ?thesis .
  qed
qed

lemma round_sig_mantissa:
  fixes x :: real
  assumes "0 \<le> x"
  shows "0 \<le> rne (x / 2 ^ nat (bitlen \<lfloor>x\<rfloor> - 53)) \<and>
         rne (x / 2 ^ nat (bitlen \<lfloor>x\<rfloor> - 53)) \<le> 2 ^ 53"
proof -
  let ?k = "nat (bitlen \<lfloor>x\<rfloor> - 53)"
  have "nat (bitlen \<lfloor>x\<rfloor>) \<le> 53 + ?k"
    by simp
  then have "(2::real) ^ nat (bitlen \<lfloor>x\<rfloor>) \<le> 2 ^ (53 + ?k)"
    by (rule power_increasing) simp
  with bitlen_floor_upper [OF assms] have "x < 2 ^ 53 * 2 ^ ?k"
    by (simp add: power_add)
  then have "x / 2 ^ ?k \<le> real_of_int (2 ^ 53)"
    by (simp add: field_simps)
  then have "rne (x / 2 ^ ?k) \<le> rne (real_of_int (2 ^ 53))"
    by (rule rne_mono)
  then have "rne (x / 2 ^ ?k) \<le> 2 ^ 53"
    by (simp only: rne_of_int)
  moreover from assms have "0 \<le> rne (x / 2 ^ ?k)"
    by (simp add: rne_nonneg)
  ultimately show ?thesis
    by simp
qed

lemma round_sig_nonneg: "0 \<le> x \<Longrightarrow> 0 \<le> round_sig x"
  using round_sig_mantissa [of x] by (simp add: round_sig_def Let_def)

lemma round_sig_idem:
  assumes "0 \<le> x"
  shows "round_sig (round_sig x) = round_sig x"
  using round_sig_mantissa [OF assms]
  by (simp add: round_sig_def [of x] Let_def round_sig_exact)



subsection \<open>Rounding to a float\<close>

lemma f64_scale_pos: "0 < f64_scale"
  by (simp add: f64_scale_def)

lemma f64_scale_split: "k \<le> 1074 \<Longrightarrow> f64_scale = 2 ^ (1074 - k) * 2 ^ k"
  unfolding f64_scale_def by (simp only: power_add [symmetric]) simp

lemma f64_limit: "2 ^ 53 * f64_scale < f64_huge * f64_scale"
proof -
  have "(2::real) ^ 53 < 2 ^ 1024"
    by (rule power_strict_increasing) simp_all
  then show ?thesis
    unfolding f64_huge_def using f64_scale_pos by (simp only: mult_less_cancel_right_pos)
qed

lemma round64_nonneg_eq:
  assumes "0 \<le> x"
  shows "round64 x = (if f64_huge * f64_scale \<le> round_sig (x * f64_scale) then PInf
                      else Fin (round_sig (x * f64_scale) / f64_scale))"
  using assms by (simp add: round64_def Let_def)

lemma round64_zero: "round64 0 = Fin 0"
  using f64_scale_pos by (simp add: round64_def round_sig_zero f64_huge_def)

lemma scaled_nonneg: "0 \<le> x \<Longrightarrow> 0 \<le> x * f64_scale"
  using f64_scale_pos by simp



lemma round64_FinD:
  assumes x: "0 \<le> x" and v: "round64 x = Fin v"
  shows "\<not> f64_huge * f64_scale \<le> round_sig (x * f64_scale)"
    and "v * f64_scale = round_sig (x * f64_scale)"
proof -
  from v show small: "\<not> f64_huge * f64_scale \<le> round_sig (x * f64_scale)"
    by (simp add: round64_nonneg_eq [OF x] split: if_splits)
  with v have "v = round_sig (x * f64_scale) / f64_scale"
    by (simp add: round64_nonneg_eq [OF x])
  then show "v * f64_scale = round_sig (x * f64_scale)"
    using f64_scale_pos by simp
qed

lemma round64_FinI:
  assumes x: "0 \<le> x" and small: "\<not> f64_huge * f64_scale \<le> round_sig (x * f64_scale)"
    and v: "v * f64_scale = round_sig (x * f64_scale)"
  shows "round64 x = Fin v"
proof -
  from v have "v = round_sig (x * f64_scale) / f64_scale"
    using f64_scale_pos by (simp add: field_simps)
  with small show ?thesis
    by (simp add: round64_nonneg_eq [OF x])
qed

lemma round64_idem:
  assumes x: "0 \<le> x" and v: "round64 x = Fin v"
  shows "round64 v = Fin v \<and> 0 \<le> v"
proof -
  note d = round64_FinD [OF x v]
  from x have "0 \<le> round_sig (x * f64_scale)"
    by (intro round_sig_nonneg scaled_nonneg)
  with d(2) have "0 \<le> v * f64_scale"
    by simp
  then have v0: "0 \<le> v"
    using f64_scale_pos by (simp add: zero_le_mult_iff)
  have i: "round_sig (v * f64_scale) = round_sig (x * f64_scale)"
    unfolding d(2) using x by (intro round_sig_idem scaled_nonneg)
  have "round64 v = Fin v"
    using v0 d(1) d(2) unfolding i [symmetric] by (rule round64_FinI)
  with v0 show ?thesis
    by simp
qed


text \<open>Dyadic numbers with at most 53 significant bits are not changed.\<close>

lemma round64_dyadic:
  assumes m0: "0 \<le> m" and m1: "m \<le> 2 ^ 53" and k: "k \<le> 1074"
  shows "round64 (of_int m / 2 ^ k) = Fin (of_int m / 2 ^ k)"
proof -
  let ?x = "real_of_int m / 2 ^ k"
  from m0 have x0: "0 \<le> ?x"
    by simp
  have xs: "?x * f64_scale = of_int m * 2 ^ (1074 - k)"
    unfolding f64_scale_split [OF k] by simp
  have rs: "round_sig (?x * f64_scale) = ?x * f64_scale"
    unfolding xs using m0 m1 by (rule round_sig_exact)
  from m1 have "real_of_int m \<le> real_of_int (2 ^ 53)"
    by (rule of_int_le_iff [THEN iffD2])
  then have "real_of_int m \<le> 2 ^ 53"
    by simp
  then have "real_of_int m / 2 ^ k \<le> 2 ^ 53 / 2 ^ k"
    by (simp add: divide_right_mono)
  also have "\<dots> \<le> (2::real) ^ 53"
    by (simp add: field_simps)
  finally have "?x * f64_scale \<le> 2 ^ 53 * f64_scale"
    by (rule mult_right_mono) (rule less_imp_le [OF f64_scale_pos])
  with f64_limit have small: "\<not> f64_huge * f64_scale \<le> round_sig (?x * f64_scale)"
    unfolding rs by simp
  from x0 small rs [symmetric] show ?thesis
    by (rule round64_FinI)
qed

lemma round64_of_int:
  assumes "0 \<le> n" and "n \<le> 2 ^ 53"
  shows "round64 (of_int n) = Fin (of_int n)"
  using round64_dyadic [OF assms, of 0] by simp

text \<open>The rounding of a number whose binade is known.\<close>

lemma round_sig_binade:
  fixes x :: real
  assumes lo: "2 ^ (52 + k) \<le> x" and hi: "x < 2 ^ (53 + k)"
  shows "round_sig x = of_int (rne (x / 2 ^ k)) * 2 ^ k"
proof -
  from lo have "real_of_int (2 ^ (52 + k)) \<le> x"
    by simp
  then have "2 ^ (52 + k) \<le> \<lfloor>x\<rfloor>"
    by (simp only: le_floor_iff)
  then have "53 + int k \<le> bitlen \<lfloor>x\<rfloor>"
    using bitlen_ge_iff_power [of "53 + int k" "\<lfloor>x\<rfloor>"] by (simp add: nat_add_distrib)
  moreover from hi have "x < real_of_int (2 ^ (53 + k))"
    by simp
  then have "\<lfloor>x\<rfloor> < 2 ^ (53 + k)"
    by (simp only: floor_less_iff)
  then have "bitlen \<lfloor>x\<rfloor> \<le> 53 + int k"
    using bitlen_le_iff_power [of "\<lfloor>x\<rfloor>" "53 + int k"] by (simp add: nat_add_distrib)
  ultimately have "nat (bitlen \<lfloor>x\<rfloor> - 53) = k"
    by simp
  then show ?thesis
    by (simp add: round_sig_def Let_def)
qed

lemma round64_binade:
  assumes lo: "2 ^ 52 \<le> x * 2 ^ n" and hi: "x * 2 ^ n < 2 ^ 53" and n: "n \<le> 1074"
  shows "round64 x = Fin (of_int (rne (x * 2 ^ n)) / 2 ^ n)"
proof -
  have "(0::real) \<le> 2 ^ 52"
    by simp
  then have "0 \<le> x * 2 ^ n"
    using lo by (rule order_trans)
  moreover have "0 < (2::real) ^ n"
    by simp
  ultimately have x0: "0 \<le> x"
    by (auto simp: zero_le_mult_iff)
  define k where "k = 1074 - n"
  have p: "f64_scale = 2 ^ k * 2 ^ n"
    unfolding k_def using n by (rule f64_scale_split)
  have xs: "x * f64_scale = (x * 2 ^ n) * 2 ^ k"
    unfolding p by simp
  from lo have "2 ^ 52 * 2 ^ k \<le> (x * 2 ^ n) * (2::real) ^ k"
    by (intro mult_right_mono) simp_all
  then have lo': "2 ^ (52 + k) \<le> x * f64_scale"
    unfolding xs by (simp only: power_add)
  from hi have "(x * 2 ^ n) * 2 ^ k < 2 ^ 53 * (2::real) ^ k"
    by (intro mult_strict_right_mono) simp_all
  then have hi': "x * f64_scale < 2 ^ (53 + k)"
    unfolding xs by (simp only: power_add)
  have d: "x * f64_scale / 2 ^ k = x * 2 ^ n"
    unfolding xs by simp
  have rs: "round_sig (x * f64_scale) = of_int (rne (x * 2 ^ n)) * 2 ^ k"
    using round_sig_binade [OF lo' hi'] unfolding d .
  have "x * 2 ^ n \<le> real_of_int (2 ^ 53)"
    using hi by simp
  then have "rne (x * 2 ^ n) \<le> rne (real_of_int (2 ^ 53))"
    by (rule rne_mono)
  then have "rne (x * 2 ^ n) \<le> 2 ^ 53"
    by (simp only: rne_of_int)
  then have "real_of_int (rne (x * 2 ^ n)) \<le> real_of_int (2 ^ 53)"
    by (rule of_int_le_iff [THEN iffD2])
  then have "real_of_int (rne (x * 2 ^ n)) \<le> 2 ^ 53"
    by simp
  then have "real_of_int (rne (x * 2 ^ n)) / 2 ^ n \<le> 2 ^ 53 / 2 ^ n"
    by (simp add: divide_right_mono)
  also have "\<dots> \<le> (2::real) ^ 53"
    by (simp add: field_simps)
  finally have "real_of_int (rne (x * 2 ^ n)) / 2 ^ n * f64_scale \<le> 2 ^ 53 * f64_scale"
    by (rule mult_right_mono) (rule less_imp_le [OF f64_scale_pos])
  moreover have "real_of_int (rne (x * 2 ^ n)) / 2 ^ n * f64_scale = of_int (rne (x * 2 ^ n)) * 2 ^ k"
    unfolding p by simp
  then have v: "real_of_int (rne (x * 2 ^ n)) / 2 ^ n * f64_scale = round_sig (x * f64_scale)"
    by (simp only: rs)
  ultimately have small: "\<not> f64_huge * f64_scale \<le> round_sig (x * f64_scale)"
    using f64_limit by simp
  from x0 small v show ?thesis
    by (rule round64_FinI)
qed

lemma round64_eval:
  assumes "2 ^ 52 \<le> x * 2 ^ n" and "x * 2 ^ n < 2 ^ 53" and "n \<le> 1074"
    and "rne (x * 2 ^ n) = m" and "v = of_int m / 2 ^ n"
  shows "round64 x = Fin v"
  using round64_binade [OF assms(1-3)] assms(4,5) by simp





section \<open>Floating-point operations\<close>

lemma float_of_int_exact: "0 \<le> n \<Longrightarrow> n \<le> 2 ^ 53 \<Longrightarrow> float_of_int n = Inr (Fin (of_int n))"
  by (simp add: float_of_int_def round64_of_int)

lemma fadd_ints:
  assumes "0 \<le> a" "0 \<le> b" "a + b \<le> 2 ^ 53"
  shows "fadd (Fin (of_int a)) (Fin (of_int b)) = Fin (of_int (a + b))"
proof -
  from assms have "round64 (of_int (a + b)) = Fin (of_int (a + b))"
    by (intro round64_of_int) simp_all
  then show ?thesis
    by simp
qed

lemma fmul_ints:
  assumes "0 \<le> a" "0 \<le> b" "a * b \<le> 2 ^ 53"
  shows "fmul (Fin (of_int a)) (Fin (of_int b)) = Fin (of_int (a * b))"
proof -
  from assms have "round64 (of_int (a * b)) = Fin (of_int (a * b))"
    by (intro round64_of_int) simp_all
  then show ?thesis
    by simp
qed

lemma cap_whole:
  assumes b: "0 \<le> b" and s: "0 \<le> s" and Y: "0 \<le> Y" and Y': "Y \<le> 2 ^ 53"
    and bound: "b + s * Y \<le> 2 ^ 53"
  shows "tax_free_cap_f64 f Y (Some (Fin (of_int b))) (Some (Fin (of_int s))) =
           Inr (Fin (of_int (b + s * Y)))"
proof -
  from s Y have sY: "0 \<le> s * Y"
    by simp
  with b bound have sYb: "s * Y \<le> 2 ^ 53"
    by linarith
  have "fmul (Fin (of_int s)) (Fin (of_int Y)) = Fin (of_int (s * Y))"
    using s Y sYb by (rule fmul_ints)
  moreover have "fadd (Fin (of_int b)) (Fin (of_int (s * Y))) = Fin (of_int (b + s * Y))"
    using b sY bound by (rule fadd_ints)
  ultimately show ?thesis
    by (simp add: tax_free_cap_f64_def float_of_int_exact [OF Y Y'])
qed


lemma fmul_FinD: "fmul a b = Fin v \<Longrightarrow> \<exists>x y. a = Fin x \<and> b = Fin y \<and> round64 (x * y) = Fin v"
  by (cases a; cases b) (simp_all split: if_splits)

lemma fdiv_const_FinD: "fdiv_const a c = Fin v \<Longrightarrow> \<exists>x. a = Fin x \<and> round64 (x / c) = Fin v"
  by (cases a) simp_all


lemma not_neg_Fin: "not_neg (Fin v) \<longleftrightarrow> 0 \<le> v"
  by (simp add: not_neg_def)





lemma fin_nn_round64: "0 \<le> x \<Longrightarrow> round64 x = Fin v \<Longrightarrow> fin_nn (round64 x) v"
  using round64_idem [of x v] by (simp add: fin_nn_def)





lemma fin_nn_fmul:
  assumes "fmul a b = Fin v" and "not_neg a" and "not_neg b"
  shows "fin_nn (fmul a b) v"
proof -
  from assms(1) obtain x y where xy: "a = Fin x" "b = Fin y" "round64 (x * y) = Fin v"
    using fmul_FinD by blast
  with assms(2,3) have "0 \<le> x * y"
    by (simp add: not_neg_Fin)
  then have "fin_nn (round64 (x * y)) v"
    using xy(3) by (rule fin_nn_round64)
  with xy show ?thesis
    by simp
qed





section \<open>The calculation in binary64\<close>



subsection \<open>The default inputs with notice on 11 October 2029\<close>

lemma default_f64_1:
  "round64 (158000) = Fin (158000)"
  by (rule round64_eval [where n = 35 and m = 5428838662144000]) (simp_all add: rne_def Let_def)

lemma default_f64_2:
  "round64 (39500 / 13) = Fin (6681647584177231 / 2199023255552)"
  by (rule round64_eval [where n = 41 and m = 6681647584177231]) (simp_all add: rne_def Let_def)

lemma default_f64_3:
  "round64 (6681647584177231 / 10995116277760) = Fin (5345318067341785 / 8796093022208)"
  by (rule round64_eval [where n = 43 and m = 5345318067341785]) (simp_all add: rne_def Let_def)

lemma default_f64_4:
  "round64 (20044942752531693 / 274877906944) = Fin (5011235688132923 / 68719476736)"
  by (rule round64_eval [where n = 36 and m = 5011235688132923]) (simp_all add: rne_def Let_def)

lemma default_f64_5:
  "round64 (8) = Fin (8)"
  by (rule round64_eval [where n = 49 and m = 4503599627370496]) (simp_all add: rne_def Let_def)

lemma default_f64_6:
  "round64 (6681647584177231 / 274877906944) = Fin (6681647584177231 / 274877906944)"
  by (rule round64_eval [where n = 38 and m = 6681647584177231]) (simp_all add: rne_def Let_def)

lemma default_f64_7:
  "round64 (5) = Fin (5)"
  by (rule round64_eval [where n = 50 and m = 5629499534213120]) (simp_all add: rne_def Let_def)

lemma default_f64_8:
  "round64 (26726590336708925 / 8796093022208) = Fin (6681647584177231 / 2199023255552)"
  by (rule round64_eval [where n = 41 and m = 6681647584177231]) (simp_all add: rne_def Let_def)

lemma default_f64_9:
  "round64 (4) = Fin (4)"
  by (rule round64_eval [where n = 50 and m = 4503599627370496]) (simp_all add: rne_def Let_def)

lemma default_f64_10:
  "round64 (6681647584177231 / 549755813888) = Fin (6681647584177231 / 549755813888)"
  by (rule round64_eval [where n = 39 and m = 6681647584177231]) (simp_all add: rne_def Let_def)

lemma default_f64_11:
  "round64 (33408237920886155 / 2199023255552) = Fin (8352059480221539 / 549755813888)"
  by (rule round64_eval [where n = 39 and m = 8352059480221539]) (simp_all add: rne_def Let_def)

lemma default_f64_12:
  "round64 (8352059480221539 / 549755813888) = Fin (8352059480221539 / 549755813888)"
  by (rule round64_eval [where n = 39 and m = 8352059480221539]) (simp_all add: rne_def Let_def)

lemma default_f64_13:
  "round64 (26726590336708923 / 274877906944) = Fin (6681647584177231 / 68719476736)"
  by (rule round64_eval [where n = 36 and m = 6681647584177231]) (simp_all add: rne_def Let_def)

lemma default_f64_14:
  "round64 (13100) = Fin (13100)"
  by (rule round64_eval [where n = 39 and m = 7201801161932800]) (simp_all add: rne_def Let_def)

lemma default_f64_15:
  "round64 (6552) = Fin (6552)"
  by (rule round64_eval [where n = 40 and m = 7204000185188352]) (simp_all add: rne_def Let_def)

lemma default_f64_16:
  "round64 (52416) = Fin (52416)"
  by (rule round64_eval [where n = 37 and m = 7204000185188352]) (simp_all add: rne_def Let_def)

lemma default_f64_17:
  "round64 (65516) = Fin (65516)"
  by (rule round64_eval [where n = 37 and m = 9004450475671552]) (simp_all add: rne_def Let_def)

lemma default_f64_18:
  "round64 (2179422346341455 / 68719476736) = Fin (2179422346341455 / 68719476736)"
  by (rule round64_eval [where n = 38 and m = 8717689385365820]) (simp_all add: rne_def Let_def)

lemma default_f64_19:
  "round64 (8 / 25) = Fin (5764607523034235 / 18014398509481984)"
  by (rule round64_eval [where n = 54 and m = 5764607523034235]) (simp_all add: rne_def Let_def)

lemma default_f64_20:
  "round64 (12563514453588875543792964711925 / 1237940039285380274899124224) = Fin (5579321206634125 / 549755813888)"
  by (rule round64_eval [where n = 39 and m = 5579321206634125]) (simp_all add: rne_def Let_def)

lemma default_f64_21:
  "round64 (48146344912514486182343281387665 / 9903520314283042199192993792) = Fin (5345318067341785 / 1099511627776)"
  by (rule round64_eval [where n = 40 and m = 5345318067341785]) (simp_all add: rne_def Let_def)

lemma default_f64_22:
  "round64 (61805240153639387 / 549755813888) = Fin (7725655019204923 / 68719476736)"
  by (rule round64_eval [where n = 36 and m = 7725655019204923]) (simp_all add: rne_def Let_def)

lemma default_f64_23:
  "round64 (16503960480610035 / 1099511627776) = Fin (4125990120152509 / 274877906944)"
  by (rule round64_eval [where n = 39 and m = 8251980240305018]) (simp_all add: rne_def Let_def)

lemma default_f64_24:
  "round64 (4125990120152509 / 274877906944) = Fin (4125990120152509 / 274877906944)"
  by (rule round64_eval [where n = 39 and m = 8251980240305018]) (simp_all add: rne_def Let_def)

lemma default_f64_25:
  "round64 (26776629956667183 / 274877906944) = Fin (1673539372291699 / 17179869184)"
  by (rule round64_eval [where n = 36 and m = 6694157489166796]) (simp_all add: rne_def Let_def)

lemmas default_f64 =
  default_f64_1 default_f64_2 default_f64_3 default_f64_4 default_f64_5 default_f64_6
  default_f64_7 default_f64_8 default_f64_9 default_f64_10 default_f64_11 default_f64_12
  default_f64_13 default_f64_14 default_f64_15 default_f64_16 default_f64_17 default_f64_18
  default_f64_19 default_f64_20 default_f64_21 default_f64_22 default_f64_23 default_f64_24
  default_f64_25

lemma compute_f64_default:
  "compute_f64 (default_inputs \<lparr>year = 2029, month = 10, day = 11\<rparr>) =
     Inr \<lparr>redundancy_gross_f64 = Fin (5011235688132923 / 68719476736),
        notice_gross_f64 = Fin (6681647584177231 / 274877906944),
        leave_gross_f64 = Fin (8352059480221539 / 549755813888),
        etp_gross_f64 = Fin (6681647584177231 / 68719476736),
        cap_f64 = Fin 65516,
        etp_taxable_f64 = Fin (2179422346341455 / 68719476736),
        etp_tax_f64 = Fin (5579321206634125 / 549755813888),
        leave_tax_f64 = Fin (5345318067341785 / 1099511627776),
        notice_tax_f64 = Fin 0,
        total_gross_f64 = Fin (7725655019204923 / 68719476736),
        total_tax_f64 = Fin (4125990120152509 / 274877906944),
        total_net_f64 = Fin (1673539372291699 / 17179869184)\<rparr>"
  by (simp add: compute_f64_def Let_def case_prod_beta default_inputs_def tax_free_cap_f64_def
      float_of_int_def fsub_def py_max_def rw_weeks rw_rest default_service age_on_def
      dict_get_def FY_CAPS_def round64_zero default_f64)

section \<open>The cap in binary64\<close>

lemma round64_tenth:
  "round64 (1 / 10) = Fin (3602879701896397 / 36028797018963968)"
  by (rule round64_eval [where n = 56 and m = 7205759403792794]) (simp_all add: rne_def Let_def)

lemma round64_tenth_times_6:
  "round64 (10808639105689191 / 18014398509481984) = Fin (1351079888211149 / 2251799813685248)"
  by (rule round64_eval [where n = 53 and m = 5404319552844596]) (simp_all add: rne_def Let_def)

lemma round64_six_tenths:
  "round64 (1351079888211149 / 2251799813685248) = Fin (1351079888211149 / 2251799813685248)"
  by (rule round64_eval [where n = 53 and m = 5404319552844596]) (simp_all add: rne_def Let_def)

lemma round64_tenth_times_5:
  "round64 (18014398509481985 / 36028797018963968) = Fin (1 / 2)"
  by (rule round64_eval [where n = 53 and m = 4503599627370496]) (simp_all add: rne_def Let_def)

lemma round64_half:
  "round64 (1 / 2) = Fin (1 / 2)"
  by (rule round64_eval [where n = 53 and m = 4503599627370496]) (simp_all add: rne_def Let_def)

lemma round64_half_plus_tenth:
  "round64 (21617278211378381 / 36028797018963968) = Fin (5404319552844595 / 9007199254740992)"
  by (rule round64_eval [where n = 53 and m = 5404319552844595]) (simp_all add: rne_def Let_def)

lemma float_of_int_5: "float_of_int 5 = Inr (Fin 5)"
  using float_of_int_exact [of 5] by simp

lemma float_of_int_6: "float_of_int 6 = Inr (Fin 6)"
  using float_of_int_exact [of 6] by simp

text \<open>
  Claim C7 says that one more completed year adds exactly the amount per year to the cap,
  for every resolved pair of constants.  The cap is \<^verbatim>\<open>float(base + svc * years)\<close> in
  binary64: with a base of 0 and 0.1 per year, six years give
  \<open>0.6000000000000001\<close>, while five years give \<open>0.5\<close> and adding \<open>0.1\<close> to that
  gives \<open>0.6\<close>.
\<close>

theorem cap_step_counterexample:
  "tax_free_cap_f64 ''2025-26'' 6 (Some (Fin 0)) (Some (round64 (1 / 10)))
     = Inr (Fin (1351079888211149 / 2251799813685248)) \<and>
   tax_free_cap_f64 ''2025-26'' 5 (Some (Fin 0)) (Some (round64 (1 / 10))) = Inr (Fin (1 / 2)) \<and>
   fadd (Fin (1 / 2)) (round64 (1 / 10)) = Fin (5404319552844595 / 9007199254740992) \<and>
   Fin (1351079888211149 / 2251799813685248) \<noteq> Fin (5404319552844595 / 9007199254740992)"
  by (simp add: tax_free_cap_f64_def float_of_int_5 float_of_int_6 round64_tenth
      round64_tenth_times_6 round64_six_tenths round64_tenth_times_5 round64_half
      round64_half_plus_tenth)

lemma compute_f64_cap:
  assumes "compute_f64 i = Inr r"
  shows "tax_free_cap_f64 (fy i) (full_months_between (start_date i) (notice_date i) div 12)
           (Some (round64 (cap_base i))) (Some (round64 (cap_service i))) = Inr (cap_f64 r)"
  using assms
  by (auto simp: compute_f64_def Let_def case_prod_beta rw_rest split: sum.splits)

lemma cap_keys:
  "tax_free_cap_f64 ''2025-26'' Y None None =
     tax_free_cap_f64 ''2025-26'' Y (Some (Fin (real_of_int 13100))) (Some (Fin (real_of_int 6552)))"
  "tax_free_cap_f64 ''2024-25'' Y None None =
     tax_free_cap_f64 ''2024-25'' Y (Some (Fin (real_of_int 12524))) (Some (Fin (real_of_int 6264)))"
  "tax_free_cap_f64 ''2023-24'' Y None None =
     tax_free_cap_f64 ''2023-24'' Y (Some (Fin (real_of_int 11985))) (Some (Fin (real_of_int 5994)))"
  using round64_of_int [of 13100] round64_of_int [of 6552] round64_of_int [of 12524]
    round64_of_int [of 6264] round64_of_int [of 11985] round64_of_int [of 5994]
  by (simp_all add: tax_free_cap_f64_def dict_get_def FY_CAPS_def)

lemma cap_whole_step:
  assumes b: "0 \<le> b" and s: "0 \<le> s" and Y: "0 \<le> Y" and Y': "Y + 1 \<le> 2 ^ 53"
    and bound: "b + s * (Y + 1) \<le> 2 ^ 53"
  shows "tax_free_cap_f64 f Y (Some (Fin (of_int b))) (Some (Fin (of_int s))) =
           Inr (Fin (of_int (b + s * Y))) \<and>
         tax_free_cap_f64 f (Y + 1) (Some (Fin (of_int b))) (Some (Fin (of_int s))) =
           Inr (fadd (Fin (of_int (b + s * Y))) (Fin (of_int s)))"
proof -
  from s have "s * Y \<le> s * (Y + 1)"
    by (simp add: mult_left_mono)
  with bound have bY: "b + s * Y \<le> 2 ^ 53"
    by linarith
  from Y Y' have Y2: "Y \<le> 2 ^ 53" and Y1: "0 \<le> Y + 1"
    by simp_all
  have c0: "tax_free_cap_f64 f Y (Some (Fin (of_int b))) (Some (Fin (of_int s))) =
           Inr (Fin (of_int (b + s * Y)))"
    using b s Y Y2 bY by (rule cap_whole)
  have c1: "tax_free_cap_f64 f (Y + 1) (Some (Fin (of_int b))) (Some (Fin (of_int s))) =
           Inr (Fin (of_int (b + s * (Y + 1))))"
    using b s Y1 Y' bound by (rule cap_whole)
  from s Y have "0 \<le> b + s * Y"
    using b by simp
  then have "fadd (Fin (of_int (b + s * Y))) (Fin (of_int s)) = Fin (of_int (b + s * Y + s))"
    using s bound by (intro fadd_ints) (simp_all add: algebra_simps)
  also have "b + s * Y + s = b + s * (Y + 1)"
    by (simp add: algebra_simps)
  finally show ?thesis
    using c0 c1 by simp
qed

text \<open>
  Claim C7 as amended.  For a base amount and an amount per year that are whole numbers
  and a count \<open>Y\<close> of completed years, none negative, with
  \<open>base + svc * (Y + 1)\<close> at most \<open>2 ^ 53\<close>, the cap is exactly \<open>base + svc * Y\<close>
  and the cap for \<open>Y + 1\<close> years is the cap for \<open>Y\<close> years plus the amount per
  year.  The constants of the three configured fiscal years are whole numbers, so without
  overrides this holds for each of them, up to \<open>10 ^ 12\<close> years.  The script passes the
  completed years only, so the remainder months do not enter the cap.
\<close>

theorem tax_free_cap_f64_step:
  assumes b: "0 \<le> b" and s: "0 \<le> s" and Y: "0 \<le> Y" and Y': "Y + 1 \<le> 2 ^ 53"
    and bound: "b + s * (Y + 1) \<le> 2 ^ 53"
  shows "tax_free_cap_f64 f Y (Some (Fin (of_int b))) (Some (Fin (of_int s))) =
           Inr (Fin (of_int (b + s * Y))) \<and>
         tax_free_cap_f64 f (Y + 1) (Some (Fin (of_int b))) (Some (Fin (of_int s))) =
           Inr (fadd (Fin (of_int (b + s * Y))) (Fin (of_int s))) \<and>
         (Y \<le> 10 ^ 12 \<longrightarrow>
            tax_free_cap_f64 ''2025-26'' Y None None = Inr (Fin (of_int (13100 + 6552 * Y))) \<and>
            tax_free_cap_f64 ''2025-26'' (Y + 1) None None =
              Inr (fadd (Fin (of_int (13100 + 6552 * Y))) (Fin 6552)) \<and>
            tax_free_cap_f64 ''2024-25'' Y None None = Inr (Fin (of_int (12524 + 6264 * Y))) \<and>
            tax_free_cap_f64 ''2024-25'' (Y + 1) None None =
              Inr (fadd (Fin (of_int (12524 + 6264 * Y))) (Fin 6264)) \<and>
            tax_free_cap_f64 ''2023-24'' Y None None = Inr (Fin (of_int (11985 + 5994 * Y))) \<and>
            tax_free_cap_f64 ''2023-24'' (Y + 1) None None =
              Inr (fadd (Fin (of_int (11985 + 5994 * Y))) (Fin 5994))) \<and>
         (\<forall>i r. compute_f64 i = Inr r \<longrightarrow>
            tax_free_cap_f64 (fy i) (full_months_between (start_date i) (notice_date i) div 12)
              (Some (round64 (cap_base i))) (Some (round64 (cap_service i))) = Inr (cap_f64 r))"
proof -
  have keys: "tax_free_cap_f64 ''2025-26'' Y None None = Inr (Fin (of_int (13100 + 6552 * Y))) \<and>
            tax_free_cap_f64 ''2025-26'' (Y + 1) None None =
              Inr (fadd (Fin (of_int (13100 + 6552 * Y))) (Fin 6552)) \<and>
            tax_free_cap_f64 ''2024-25'' Y None None = Inr (Fin (of_int (12524 + 6264 * Y))) \<and>
            tax_free_cap_f64 ''2024-25'' (Y + 1) None None =
              Inr (fadd (Fin (of_int (12524 + 6264 * Y))) (Fin 6264)) \<and>
            tax_free_cap_f64 ''2023-24'' Y None None = Inr (Fin (of_int (11985 + 5994 * Y))) \<and>
            tax_free_cap_f64 ''2023-24'' (Y + 1) None None =
              Inr (fadd (Fin (of_int (11985 + 5994 * Y))) (Fin 5994))" if le: "Y \<le> 10 ^ 12"
  proof -
    from le have Y1: "Y + 1 \<le> 2 ^ 53"
      by simp
    from le have "13100 + 6552 * (Y + 1) \<le> 2 ^ 53" "12524 + 6264 * (Y + 1) \<le> 2 ^ 53"
      "11985 + 5994 * (Y + 1) \<le> 2 ^ 53"
      by simp_all
    then show ?thesis
      using cap_whole_step [of 13100 6552 Y "''2025-26''"] cap_whole_step [of 12524 6264 Y "''2024-25''"]
        cap_whole_step [of 11985 5994 Y "''2023-24''"] Y Y1
      by (simp add: cap_keys)
  qed
  from cap_whole_step [OF assms] keys compute_f64_cap show ?thesis
    by blast
qed

theorem tax_free_cap_f64_step_witness:
  "(0::int) \<le> 13100 \<and> (0::int) \<le> 6552 \<and> (0::int) \<le> 8 \<and> (8::int) + 1 \<le> 2 ^ 53 \<and>
   (13100::int) + 6552 * (8 + 1) \<le> 2 ^ 53 \<and> (8::int) \<le> 10 ^ 12 \<and>
   tax_free_cap_f64 ''2025-26'' 8 None None = Inr (Fin 65516) \<and>
   tax_free_cap_f64 ''2025-26'' (8 + 1) None None = Inr (fadd (Fin 65516) (Fin 6552)) \<and>
   (\<exists>r. compute_f64 (default_inputs \<lparr>year = 2029, month = 10, day = 11\<rparr>) = Inr r \<and>
        tax_free_cap_f64 ''2025-26'' 8 (Some (round64 13100)) (Some (round64 6552)) = Inr (cap_f64 r))"
proof -
  let ?i = "default_inputs \<lparr>year = 2029, month = 10, day = 11\<rparr>"
  have h: "(0::int) \<le> 13100" "(0::int) \<le> 6552" "(0::int) \<le> 8" "(8::int) + 1 \<le> 2 ^ 53"
    "(13100::int) + 6552 * (8 + 1) \<le> 2 ^ 53"
    by simp_all
  have k: "(8::int) \<le> 10 ^ 12"
    by simp
  note t = tax_free_cap_f64_step [OF h, of "''2025-26''"]
  from t k have "tax_free_cap_f64 ''2025-26'' 8 None None = Inr (Fin (of_int (13100 + 6552 * 8)))"
    and "tax_free_cap_f64 ''2025-26'' (8 + 1) None None =
           Inr (fadd (Fin (of_int (13100 + 6552 * 8))) (Fin 6552))"
    by blast+
  then have c: "tax_free_cap_f64 ''2025-26'' 8 None None = Inr (Fin 65516)"
    "tax_free_cap_f64 ''2025-26'' (8 + 1) None None = Inr (fadd (Fin 65516) (Fin 6552))"
    by simp_all
  obtain r where r: "compute_f64 ?i = Inr r"
    using compute_f64_default by blast
  with t have "tax_free_cap_f64 (fy ?i)
      (full_months_between (start_date ?i) (notice_date ?i) div 12)
      (Some (round64 (cap_base ?i))) (Some (round64 (cap_service ?i))) = Inr (cap_f64 r)"
    by blast
  then have "tax_free_cap_f64 ''2025-26'' 8 (Some (round64 13100)) (Some (round64 6552)) = Inr (cap_f64 r)"
    by (simp add: default_inputs_def default_service)
  with r h k c show ?thesis
    by blast
qed

section \<open>Net payout in binary64\<close>

subsection \<open>A salary of 63000 with notice not paid in lieu\<close>





















subsection \<open>Notice weeks that overflow\<close>






















subsection \<open>Notice paid in lieu\<close>




end
